theory Spec2Isabelle
  imports Complex_Main
begin

section \<open>Constants of \<^verbatim>\<open>main.py\<close>\<close>

text \<open>
  Python floats are modelled as reals and Python integers that only ever meet floats in
  arithmetic are embedded into the reals; integer counters (\<open>combo\<close>, the health points)
  stay integers.
\<close>

definition WIDTH :: real where "WIDTH = 1280"
definition HEIGHT :: real where "HEIGHT = 720"

definition STATE_MENU :: string where "STATE_MENU = ''menu''"
definition STATE_PRECISION :: string where "STATE_PRECISION = ''precision''"
definition STATE_BRAWL :: string where "STATE_BRAWL = ''brawl''"

section \<open>Randomness\<close>

text \<open>
  \<^verbatim>\<open>random.random()\<close> returns a float in \<open>[0, 1)\<close>. A call of an \<open>update\<close> method receives the
  sequence \<open>rnd 0, rnd 1, ...\<close> of the values its successive draws return;
  \<^verbatim>\<open>random.uniform(a, b)\<close> is \<^verbatim>\<open>a + (b - a) * random()\<close>.
\<close>

type_synonym rng = "nat \<Rightarrow> real"

definition rng_ok :: "rng \<Rightarrow> bool" where
  "rng_ok rnd \<longleftrightarrow> (\<forall>n. 0 \<le> rnd n \<and> rnd n < 1)"

definition uniform :: "real \<Rightarrow> real \<Rightarrow> real \<Rightarrow> real" where
  "uniform a b u = a + (b - a) * u"

section \<open>Exceptions\<close>

text \<open>
  A method that can raise returns \<open>error + 'a\<close>: \<open>Inl e\<close> when the exception \<open>e\<close>
  propagates out of it, \<open>Inr v\<close> when it returns.
\<close>

datatype error = ValueError | AttributeError

section \<open>Object store and the remove-while-iterating loop\<close>

text \<open>
  Sparks and particles are mutable objects held in Python lists. The loop
  \<^verbatim>\<open>for sp in list(self.sparks): ...; if sp.life <= 0: self.sparks.remove(sp)\<close>
  iterates over a snapshot that shares its objects with the live list, so a list is a list
  of references into a store. \<^verbatim>\<open>list.remove(v)\<close> deletes the first element \<open>e\<close> with
  \<^verbatim>\<open>e is v or e == v\<close> (dataclasses and lists compare by value) and raises
  \<^verbatim>\<open>ValueError\<close> when there is none.
\<close>

type_synonym ref = nat

fun list_remove :: "(ref \<Rightarrow> 'a) \<Rightarrow> ref \<Rightarrow> ref list \<Rightarrow> error + ref list" where
  "list_remove h r [] = Inl ValueError"
| "list_remove h r (q # qs) =
     (if q = r \<or> h q = h r then Inr qs
      else (case list_remove h r qs of Inl e \<Rightarrow> Inl e | Inr qs' \<Rightarrow> Inr (q # qs')))"

text \<open>
  \<open>for_remove body dead snap (h, live)\<close>: for each reference of the snapshot, run the body
  on the object (in the store, hence visible through the live list), then remove it from
  the live list when it is dead.
\<close>

fun for_remove ::
  "('a \<Rightarrow> 'a) \<Rightarrow> ('a \<Rightarrow> bool) \<Rightarrow> ref list \<Rightarrow> (ref \<Rightarrow> 'a) \<times> ref list \<Rightarrow> error + (ref \<Rightarrow> 'a) \<times> ref list"
where
  "for_remove body dead [] (h, live) = Inr (h, live)"
| "for_remove body dead (r # snap) (h, live) =
     (let h' = h(r := body (h r)) in
      if dead (h' r) then
        (case list_remove h' r live of
           Inl e \<Rightarrow> Inl e
         | Inr live' \<Rightarrow> for_remove body dead snap (h', live'))
      else for_remove body dead snap (h', live))"

section \<open>Spark\<close>

record Spark =
  spx :: real
  spy :: real
  spdx :: real
  spdy :: real
  life :: real

definition Spark_update :: "real \<Rightarrow> Spark \<Rightarrow> Spark" where
  "Spark_update dt sp =
     sp\<lparr>spx := spx sp + spdx sp * dt, spy := spy sp + spdy sp * dt, life := life sp - dt\<rparr>"

section \<open>PrecisionCutMode\<close>

record PrecisionCutMode =
  time_limit :: real
  time_left :: real
  combo :: int
  combo_timer :: real
  sparks :: "ref list"
  perfect_text_timer :: real
  head_center :: "real \<times> real"
  head_radius :: int
  fade_x :: real
  clip_y :: real
  perfection_window :: real
  spark_objs :: "ref \<Rightarrow> Spark"
  spark_next :: ref

text \<open>
  \<open>spark_objs\<close> is the store of the Spark objects and \<open>spark_next\<close> the next unused
  reference; \<open>sparks\<close> is the list \<^verbatim>\<open>self.sparks\<close>.
\<close>

definition PrecisionCutMode_init :: PrecisionCutMode where
  "PrecisionCutMode_init =
     \<lparr>time_limit = 12, time_left = 12, combo = 0, combo_timer = 0, sparks = [],
      perfect_text_timer = 0, head_center = (WIDTH * 0.6, HEIGHT * 0.45), head_radius = 120,
      fade_x = WIDTH * 0.6 - 70, clip_y = HEIGHT * 0.45, perfection_window = 8,
      spark_objs = (\<lambda>_. \<lparr>spx = 0, spy = 0, spdx = 0, spdy = 0, life = 0\<rparr>), spark_next = 0\<rparr>"

definition PrecisionCutMode_reset :: "PrecisionCutMode \<Rightarrow> PrecisionCutMode" where
  "PrecisionCutMode_reset st =
     st\<lparr>time_left := time_limit st, combo := 0, combo_timer := 0, sparks := [],
        perfect_text_timer := 0\<rparr>"

definition append_spark :: "Spark \<Rightarrow> PrecisionCutMode \<Rightarrow> PrecisionCutMode" where
  "append_spark sp st =
     st\<lparr>sparks := sparks st @ [spark_next st],
        spark_objs := (spark_objs st)(spark_next st := sp),
        spark_next := Suc (spark_next st)\<rparr>"

text \<open>
  The two spawning loops \<^verbatim>\<open>for _ in range(n)\<close> of \<open>update\<close>; each round draws the angle,
  the speed and the life, in this order, starting at draw \<open>k\<close>.
\<close>

primrec spawn_sparks ::
  "nat \<Rightarrow> real \<times> real \<Rightarrow> real \<times> real \<Rightarrow> rng \<Rightarrow> nat \<Rightarrow> PrecisionCutMode \<Rightarrow> PrecisionCutMode"
where
  "spawn_sparks 0 spd lf rnd k st = st"
| "spawn_sparks (Suc n) spd lf rnd k st =
     (let ang = uniform (- pi / 2) (pi / 2) (rnd k);
          speed = uniform (fst spd) (snd spd) (rnd (k + 1));
          sp = \<lparr>spx = fade_x st, spy = clip_y st, spdx = cos ang * speed,
                spdy = sin ang * speed, life = uniform (fst lf) (snd lf) (rnd (k + 2))\<rparr>
      in spawn_sparks n spd lf rnd (k + 3) (append_spark sp st))"

text \<open>Lines 91 to 95: the timer and the clipper, which follows the mouse vertically.\<close>

definition update_clipper :: "real \<Rightarrow> int \<times> int \<Rightarrow> PrecisionCutMode \<Rightarrow> PrecisionCutMode" where
  "update_clipper dt mouse_pos st =
     (let st1 = st\<lparr>time_left := max 0 (time_left st - dt)\<rparr>;
          my = real_of_int (snd mouse_pos)
      in st1\<lparr>clip_y := max 100 (min (HEIGHT - 80) my)\<rparr>)"

text \<open>
  Lines 98 to 118: the classification of a press. \<open>press_dist\<close> and \<open>press_vert_err\<close> are
  the local variables \<open>dist\<close> and \<open>vert_err\<close>, with \<open>mx\<close> the horizontal mouse position.
\<close>

definition press_dist :: "real \<Rightarrow> PrecisionCutMode \<Rightarrow> real" where
  "press_dist mx st = \<bar>mx - fade_x st\<bar> + \<bar>clip_y st - (snd (head_center st) + 10)\<bar>"

definition press_vert_err :: "PrecisionCutMode \<Rightarrow> real" where
  "press_vert_err st = \<bar>clip_y st - (snd (head_center st) + 10)\<bar>"

definition update_click :: "rng \<Rightarrow> real \<Rightarrow> bool \<Rightarrow> PrecisionCutMode \<Rightarrow> PrecisionCutMode" where
  "update_click rnd mx mouse_down st =
     (if mouse_down then
        (if press_dist mx st < 80 then
           (if press_vert_err st \<le> perfection_window st then
              spawn_sparks 12 (120, 350) (0.4, 0.9) rnd 0
                (st\<lparr>combo := combo st + 1, combo_timer := 1.2, perfect_text_timer := 0.9\<rparr>)
            else
              spawn_sparks 4 (40, 140) (0.2, 0.6) rnd 0 (st\<lparr>combo := 0\<rparr>))
         else st)
      else st)"

definition update_press ::
  "rng \<Rightarrow> real \<Rightarrow> int \<times> int \<Rightarrow> bool \<Rightarrow> PrecisionCutMode \<Rightarrow> PrecisionCutMode"
where
  "update_press rnd dt mouse_pos mouse_down st =
     update_click rnd (real_of_int (fst mouse_pos)) mouse_down (update_clipper dt mouse_pos st)"

text \<open>Lines 120 to 125: advance every spark and remove the expired ones.\<close>

definition spark_body :: "real \<Rightarrow> Spark \<Rightarrow> Spark" where
  "spark_body dt sp = (let sp' = Spark_update dt sp in sp'\<lparr>spdy := spdy sp' + 300 * dt\<rparr>)"

definition update_sparks :: "real \<Rightarrow> PrecisionCutMode \<Rightarrow> error + PrecisionCutMode" where
  "update_sparks dt st =
     (case for_remove (spark_body dt) (\<lambda>sp. life sp \<le> 0) (sparks st) (spark_objs st, sparks st) of
        Inl e \<Rightarrow> Inl e
      | Inr (h, live) \<Rightarrow> Inr (st\<lparr>spark_objs := h, sparks := live\<rparr>))"

text \<open>Lines 127 to 133: the combo timer and the countdown of the perfect flag.\<close>

definition update_timers :: "real \<Rightarrow> PrecisionCutMode \<Rightarrow> PrecisionCutMode" where
  "update_timers dt st =
     (let st1 = (if combo_timer st > 0 then st\<lparr>combo_timer := combo_timer st - dt\<rparr>
                 else st\<lparr>combo := 0\<rparr>)
      in if perfect_text_timer st1 > 0
         then st1\<lparr>perfect_text_timer := perfect_text_timer st1 - dt\<rparr> else st1)"

definition PrecisionCutMode_update ::
  "rng \<Rightarrow> real \<Rightarrow> int \<times> int \<Rightarrow> bool \<Rightarrow> PrecisionCutMode \<Rightarrow> error + PrecisionCutMode"
where
  "PrecisionCutMode_update rnd dt mouse_pos mouse_down st =
     (case update_sparks dt (update_press rnd dt mouse_pos mouse_down st) of
        Inl e \<Rightarrow> Inl e
      | Inr st' \<Rightarrow> Inr (update_timers dt st'))"

section \<open>BrawlMode\<close>

text \<open>
  A particle is the Python list \<^verbatim>\<open>[x, y, dx, dy, life]\<close>; \<open>inputs\<close> is the dictionary of
  input flags, read with \<^verbatim>\<open>inputs.get(key)\<close> (a missing key is falsy).
\<close>

type_synonym particle = "real \<times> real \<times> real \<times> real \<times> real"

type_synonym inputs = "string \<rightharpoonup> bool"

definition inputs_get :: "inputs \<Rightarrow> string \<Rightarrow> bool" where
  "inputs_get inputs key = (case inputs key of None \<Rightarrow> False | Some b \<Rightarrow> b)"

record BrawlMode =
  timer :: real
  left_hp :: int
  right_hp :: int
  super_full :: bool
  super_active :: bool
  super_timer :: real
  left_pos :: "real \<times> real"
  right_pos :: "real \<times> real"
  left_vel :: "real \<times> real"
  right_vel :: "real \<times> real"
  particles :: "ref list"
  particle_objs :: "ref \<Rightarrow> particle"
  particle_next :: ref

definition BrawlMode_init :: BrawlMode where
  "BrawlMode_init =
     \<lparr>timer = 99, left_hp = 100, right_hp = 100, super_full = True, super_active = False,
      super_timer = 0, left_pos = (220, HEIGHT - 220), right_pos = (WIDTH - 220, HEIGHT - 220),
      left_vel = (0, 0), right_vel = (0, 0), particles = [],
      particle_objs = (\<lambda>_. (0, 0, 0, 0, 0)), particle_next = 0\<rparr>"

definition BrawlMode_reset :: "BrawlMode \<Rightarrow> BrawlMode" where
  "BrawlMode_reset st =
     st\<lparr>timer := 99, left_hp := 100, right_hp := 100, super_full := True,
        super_active := False, super_timer := 0, particles := []\<rparr>"

definition append_particle :: "particle \<Rightarrow> BrawlMode \<Rightarrow> BrawlMode" where
  "append_particle p st =
     st\<lparr>particles := particles st @ [particle_next st],
        particle_objs := (particle_objs st)(particle_next st := p),
        particle_next := Suc (particle_next st)\<rparr>"

text \<open>
  The two spawning loops \<^verbatim>\<open>for i in range(n)\<close> of \<open>update\<close>, at the point \<open>pos\<close>; each round
  draws the angle (in \<open>[-a, a]\<close>), the speed and the life, starting at draw \<open>k\<close>.
\<close>

primrec spawn_particles ::
  "nat \<Rightarrow> real \<times> real \<Rightarrow> real \<Rightarrow> real \<times> real \<Rightarrow> real \<times> real \<Rightarrow> rng \<Rightarrow> nat \<Rightarrow> BrawlMode \<Rightarrow> BrawlMode"
where
  "spawn_particles 0 pos a spd lf rnd k st = st"
| "spawn_particles (Suc n) pos a spd lf rnd k st =
     (let ang = uniform (- a) a (rnd k);
          spd' = uniform (fst spd) (snd spd) (rnd (k + 1));
          p = (fst pos, snd pos, cos ang * spd', sin ang * spd',
               uniform (fst lf) (snd lf) (rnd (k + 2)))
      in spawn_particles n pos a spd lf rnd (k + 3) (append_particle p st))"

text \<open>Lines 247 to 257: the match timer, the left player's controls and the clamps.\<close>

definition brawl_move :: "real \<Rightarrow> inputs \<Rightarrow> BrawlMode \<Rightarrow> BrawlMode" where
  "brawl_move dt inputs st =
     (let st1 = st\<lparr>timer := max 0 (timer st - dt)\<rparr>;
          st2 = (if inputs_get inputs ''left_move''
                 then st1\<lparr>left_pos := (fst (left_pos st1) + - 180 * dt, snd (left_pos st1))\<rparr>
                 else st1);
          st3 = (if inputs_get inputs ''right_move''
                 then st2\<lparr>left_pos := (fst (left_pos st2) + 180 * dt, snd (left_pos st2))\<rparr>
                 else st2);
          st4 = st3\<lparr>left_pos :=
                   (max 120 (min (WIDTH / 2 - 60) (fst (left_pos st3))), snd (left_pos st3))\<rparr>
      in st4\<lparr>right_pos :=
              (max (WIDTH / 2 + 60) (min (WIDTH - 120) (fst (right_pos st4))),
               snd (right_pos st4))\<rparr>)"

text \<open>
  Lines 260 to 268: the super trigger. The result carries the number of random draws made
  so far in this call.
\<close>

definition brawl_trigger :: "rng \<Rightarrow> inputs \<Rightarrow> BrawlMode \<Rightarrow> nat \<times> BrawlMode" where
  "brawl_trigger rnd inputs st =
     (if inputs_get inputs ''super'' \<and> super_full st \<and> \<not> super_active st then
        (90, spawn_particles 30 (fst (left_pos st) + 60, snd (left_pos st) - 60) 0.3
               (400, 700) (0.3, 0.9) rnd 0
               (st\<lparr>super_active := True, super_timer := 0.7, super_full := False\<rparr>))
      else (0, st))"

text \<open>Lines 271 to 281: the wind-up countdown and the resolution of the super.\<close>

definition brawl_super :: "rng \<Rightarrow> real \<Rightarrow> nat \<times> BrawlMode \<Rightarrow> nat \<times> BrawlMode" where
  "brawl_super rnd dt kst =
     (let k = fst kst; st = snd kst in
      if super_active st then
        (let st1 = st\<lparr>super_timer := super_timer st - dt\<rparr> in
         if super_timer st1 \<le> 0 then
           (k + 120,
            spawn_particles 40 (fst (right_pos st1) - 40, snd (right_pos st1) - 40) 0.7
              (100, 320) (0.4, 1.1) rnd k
              (st1\<lparr>super_active := False, right_hp := max 0 (right_hp st1 - 28)\<rparr>))
         else (k, st1))
      else (k, st))"

text \<open>Lines 284 to 290: advance every particle and remove the expired ones.\<close>

fun particle_body :: "real \<Rightarrow> particle \<Rightarrow> particle" where
  "particle_body dt (p0, p1, p2, p3, p4) =
     (p0 + p2 * dt, p1 + p3 * dt, p2, p3 + 300 * dt, p4 - dt)"

fun particle_life :: "particle \<Rightarrow> real" where
  "particle_life (p0, p1, p2, p3, p4) = p4"

definition brawl_particles :: "real \<Rightarrow> BrawlMode \<Rightarrow> error + BrawlMode" where
  "brawl_particles dt st =
     (case for_remove (particle_body dt) (\<lambda>p. particle_life p \<le> 0) (particles st)
             (particle_objs st, particles st) of
        Inl e \<Rightarrow> Inl e
      | Inr (h, live) \<Rightarrow> Inr (st\<lparr>particle_objs := h, particles := live\<rparr>))"

text \<open>
  Lines 293 and 294: the dodge of the right fighter. The random draw is made only when
  \<open>super_active\<close> holds (\<^verbatim>\<open>and\<close> short-circuits); it is draw number \<open>k\<close> of the call.
\<close>

definition brawl_ai :: "rng \<Rightarrow> nat \<Rightarrow> real \<Rightarrow> BrawlMode \<Rightarrow> BrawlMode" where
  "brawl_ai rnd k dt st =
     (if super_active st \<and> rnd k < 0.015
      then st\<lparr>right_pos := (fst (right_pos st) + 100 * dt, snd (right_pos st))\<rparr>
      else st)"

definition BrawlMode_update :: "rng \<Rightarrow> real \<Rightarrow> inputs \<Rightarrow> BrawlMode \<Rightarrow> error + BrawlMode" where
  "BrawlMode_update rnd dt inputs st =
     (let kst = brawl_super rnd dt (brawl_trigger rnd inputs (brawl_move dt inputs st)) in
      case brawl_particles dt (snd kst) of
        Inl e \<Rightarrow> Inl e
      | Inr st' \<Rightarrow> Inr (brawl_ai rnd (fst kst) dt st'))"

section \<open>Game\<close>

datatype key = K_RIGHT | K_d | K_LEFT | K_a | K_RETURN | K_ESCAPE | K_SPACE | K_OTHER nat

datatype event = QUIT | KEYDOWN key | MOUSEBUTTONDOWN | OTHER_EVENT

text \<open>
  \<open>game_mouse_down\<close> is the attribute \<^verbatim>\<open>_mouse_down\<close>, which \<open>__init__\<close> does not set:
  \<open>None\<close> until \<open>handle_events\<close> has run once.
\<close>

record Game =
  state :: string
  precision :: PrecisionCutMode
  brawl :: BrawlMode
  running :: bool
  menu_selected :: int
  game_mouse_down :: "bool option"

definition Game_init :: Game where
  "Game_init =
     \<lparr>state = STATE_MENU, precision = PrecisionCutMode_init, brawl = BrawlMode_init,
      running = True, menu_selected = 0, game_mouse_down = None\<rparr>"

text \<open>
  The body of the loop of \<open>handle_events\<close> for one event; \<open>rnd\<close> feeds the call of
  \<^verbatim>\<open>self.brawl.update(0, {"super": True})\<close>.
\<close>

definition handle_keydown :: "rng \<Rightarrow> key \<Rightarrow> Game \<Rightarrow> error + Game" where
  "handle_keydown rnd k g =
     (if state g = STATE_MENU then
        (let g1 = (if k = K_RIGHT \<or> k = K_d
                   then g\<lparr>menu_selected := min 1 (menu_selected g + 1)\<rparr> else g);
             g2 = (if k = K_LEFT \<or> k = K_a
                   then g1\<lparr>menu_selected := max 0 (menu_selected g1 - 1)\<rparr> else g1)
         in if k = K_RETURN then
              (if menu_selected g2 = 0
               then Inr (g2\<lparr>state := STATE_PRECISION, precision := PrecisionCutMode_reset (precision g2)\<rparr>)
               else Inr (g2\<lparr>state := STATE_BRAWL, brawl := BrawlMode_reset (brawl g2)\<rparr>))
            else Inr g2)
      else
        (let g1 = (if k = K_ESCAPE then g\<lparr>state := STATE_MENU\<rparr> else g) in
         if state g1 = STATE_BRAWL then
           (if k = K_SPACE then
              (case BrawlMode_update rnd 0 [''super'' \<mapsto> True] (brawl g1) of
                 Inl e \<Rightarrow> Inl e
               | Inr b \<Rightarrow> Inr (g1\<lparr>brawl := b\<rparr>))
            else Inr g1)
         else Inr g1))"

fun handle_event :: "rng \<Rightarrow> event \<Rightarrow> Game \<Rightarrow> error + Game" where
  "handle_event rnd QUIT g = Inr (g\<lparr>running := False\<rparr>)"
| "handle_event rnd (KEYDOWN k) g = handle_keydown rnd k g"
| "handle_event rnd MOUSEBUTTONDOWN g = Inr g"
| "handle_event rnd OTHER_EVENT g = Inr g"

text \<open>
  \<open>handle_events\<close>: the events of \<^verbatim>\<open>pygame.event.get()\<close>, each with the random draws of the
  update it may call, the local flag \<open>mouse_down\<close>, and at the end the store into
  \<^verbatim>\<open>_mouse_down\<close> with \<open>pressed\<close> the value of \<^verbatim>\<open>pygame.mouse.get_pressed()[0]\<close>.
\<close>

fun handle_events_loop :: "(rng \<times> event) list \<Rightarrow> bool \<times> Game \<Rightarrow> error + bool \<times> Game" where
  "handle_events_loop [] (md, g) = Inr (md, g)"
| "handle_events_loop ((rnd, ev) # evs) (md, g) =
     (case handle_event rnd ev g of
        Inl e \<Rightarrow> Inl e
      | Inr g' \<Rightarrow> handle_events_loop evs (md \<or> ev = MOUSEBUTTONDOWN, g'))"

definition handle_events :: "(rng \<times> event) list \<Rightarrow> bool \<Rightarrow> Game \<Rightarrow> error + Game" where
  "handle_events evs pressed g =
     (case handle_events_loop evs (False, g) of
        Inl e \<Rightarrow> Inl e
      | Inr (md, g') \<Rightarrow> Inr (g'\<lparr>game_mouse_down := Some (pressed \<or> md)\<rparr>))"

text \<open>
  \<open>Game.update\<close>, with the mouse position and the table of pressed keys it polls as
  arguments.
\<close>

definition Game_update :: "rng \<Rightarrow> real \<Rightarrow> int \<times> int \<Rightarrow> (key \<Rightarrow> bool) \<Rightarrow> Game \<Rightarrow> error + Game" where
  "Game_update rnd dt mouse_pos keys g =
     (if state g = STATE_MENU then Inr g
      else if state g = STATE_PRECISION then
        (case game_mouse_down g of
           None \<Rightarrow> Inl AttributeError
         | Some md \<Rightarrow>
             (case PrecisionCutMode_update rnd dt mouse_pos md (precision g) of
                Inl e \<Rightarrow> Inl e
              | Inr p \<Rightarrow> Inr (g\<lparr>precision := p\<rparr>)))
      else if state g = STATE_BRAWL then
        (let inputs = [''left_move'' \<mapsto> keys K_a \<or> keys K_LEFT,
                       ''right_move'' \<mapsto> keys K_d \<or> keys K_RIGHT,
                       ''super'' \<mapsto> False];
             inputs' = (if keys K_SPACE then inputs(''super'' \<mapsto> True) else inputs)
         in case BrawlMode_update rnd dt inputs' (brawl g) of
              Inl e \<Rightarrow> Inl e
            | Inr b \<Rightarrow> Inr (g\<lparr>brawl := b\<rparr>))
      else Inr g)"

section \<open>Reachable states\<close>

text \<open>
  Every append stores a freshly constructed object, so the references of a list are
  distinct and below the next unused reference.
\<close>

definition precision_wf :: "PrecisionCutMode \<Rightarrow> bool" where
  "precision_wf st \<longleftrightarrow> distinct (sparks st) \<and> (\<forall>r\<in>set (sparks st). r < spark_next st)"

definition brawl_wf :: "BrawlMode \<Rightarrow> bool" where
  "brawl_wf st \<longleftrightarrow> distinct (particles st) \<and> (\<forall>r\<in>set (particles st). r < particle_next st)"

inductive precision_reachable :: "PrecisionCutMode \<Rightarrow> bool" where
  p_init: "precision_reachable PrecisionCutMode_init"
| p_reset: "precision_reachable st \<Longrightarrow> precision_reachable (PrecisionCutMode_reset st)"
| p_update: "precision_reachable st \<Longrightarrow> 0 \<le> dt \<Longrightarrow> rng_ok rnd \<Longrightarrow>
     PrecisionCutMode_update rnd dt mouse_pos mouse_down st = Inr st' \<Longrightarrow>
     precision_reachable st'"

inductive brawl_reachable :: "BrawlMode \<Rightarrow> bool" where
  b_init: "brawl_reachable BrawlMode_init"
| b_reset: "brawl_reachable st \<Longrightarrow> brawl_reachable (BrawlMode_reset st)"
| b_update: "brawl_reachable st \<Longrightarrow> 0 \<le> dt \<Longrightarrow> rng_ok rnd \<Longrightarrow>
     BrawlMode_update rnd dt inputs st = Inr st' \<Longrightarrow> brawl_reachable st'"

section \<open>What the pruning loops compute\<close>

text \<open>
  The specification of lines 120 to 125 and 284 to 290: every object of the list is
  advanced by the loop body and the list keeps, in order, exactly the objects whose
  remaining life is still positive. The lemmas \<open>update_sparks_wf\<close> and
  \<open>brawl_particles_wf\<close> show that the loops of the source compute this.
\<close>

definition prune_sparks :: "real \<Rightarrow> PrecisionCutMode \<Rightarrow> PrecisionCutMode" where
  "prune_sparks dt st =
     st\<lparr>spark_objs :=
          (\<lambda>r. if r \<in> set (sparks st) then spark_body dt (spark_objs st r) else spark_objs st r),
        sparks := filter (\<lambda>r. 0 < life (spark_objs st r) - dt) (sparks st)\<rparr>"

definition prune_particles :: "real \<Rightarrow> BrawlMode \<Rightarrow> BrawlMode" where
  "prune_particles dt st =
     st\<lparr>particle_objs :=
          (\<lambda>r. if r \<in> set (particles st) then particle_body dt (particle_objs st r)
               else particle_objs st r),
        particles := filter (\<lambda>r. 0 < particle_life (particle_objs st r) - dt) (particles st)\<rparr>"

text \<open>The state of \<open>BrawlMode.update\<close> when the particle loop starts, with the draws made.\<close>

definition brawl_pre :: "rng \<Rightarrow> real \<Rightarrow> inputs \<Rightarrow> BrawlMode \<Rightarrow> nat \<times> BrawlMode" where
  "brawl_pre rnd dt inputs st = brawl_super rnd dt (brawl_trigger rnd inputs (brawl_move dt inputs st))"

section \<open>The remove-while-iterating loop is a filter\<close>

lemma list_remove_own:
  "\<forall>q\<in>set pre. q \<noteq> r \<and> h q \<noteq> h r \<Longrightarrow> list_remove h r (pre @ r # rest) = Inr (pre @ rest)"
  by (induction pre) auto

lemma for_remove_filter:
  "distinct snap \<Longrightarrow> set pre \<inter> set snap = {} \<Longrightarrow> \<forall>q\<in>set pre. \<not> dead (h q) \<Longrightarrow>
   for_remove body dead snap (h, pre @ snap) =
     Inr (\<lambda>r. if r \<in> set snap then body (h r) else h r,
          pre @ filter (\<lambda>r. \<not> dead (body (h r))) snap)"
proof (induction snap arbitrary: h pre)
  case Nil
  then show ?case by simp
next
  case (Cons r snap)
  let ?h = "h(r := body (h r))"
  have fresh: "r \<notin> set snap" "r \<notin> set pre" "distinct snap" "set pre \<inter> set snap = {}"
    using Cons.prems by auto
  have heq: "(\<lambda>x. if x \<in> set snap then body (?h x) else ?h x) =
             (\<lambda>x. if x \<in> set (r # snap) then body (h x) else h x)"
    using fresh by (auto simp: fun_eq_iff)
  have feq: "filter (\<lambda>x. \<not> dead (body (?h x))) snap = filter (\<lambda>x. \<not> dead (body (h x))) snap"
    using fresh by (intro filter_cong) auto
  show ?case
  proof (cases "dead (body (h r))")
    case True
    have "\<forall>q\<in>set pre. q \<noteq> r \<and> ?h q \<noteq> ?h r"
      using Cons.prems(3) fresh True by auto
    then have rem: "list_remove ?h r (pre @ r # snap) = Inr (pre @ snap)"
      by (rule list_remove_own)
    have pre_ok: "\<forall>q\<in>set pre. \<not> dead (?h q)"
      using Cons.prems(3) fresh by auto
    have "for_remove body dead snap (?h, pre @ snap) =
            Inr (\<lambda>x. if x \<in> set snap then body (?h x) else ?h x,
                 pre @ filter (\<lambda>x. \<not> dead (body (?h x))) snap)"
      using Cons.IH [OF fresh(3) fresh(4) pre_ok] .
    then show ?thesis
      using True rem heq feq by (simp add: Let_def)
  next
    case False
    have d: "set (pre @ [r]) \<inter> set snap = {}" using fresh by auto
    have pre_ok: "\<forall>q\<in>set (pre @ [r]). \<not> dead (?h q)"
      using Cons.prems(3) fresh False by auto
    have "for_remove body dead snap (?h, (pre @ [r]) @ snap) =
            Inr (\<lambda>x. if x \<in> set snap then body (?h x) else ?h x,
                 (pre @ [r]) @ filter (\<lambda>x. \<not> dead (body (?h x))) snap)"
      using Cons.IH [OF fresh(3) d pre_ok] .
    then show ?thesis
      using False heq feq by (simp add: Let_def)
  qed
qed

lemma for_remove_distinct:
  "distinct xs \<Longrightarrow>
   for_remove body dead xs (h, xs) =
     Inr (\<lambda>r. if r \<in> set xs then body (h r) else h r, filter (\<lambda>r. \<not> dead (body (h r))) xs)"
  using for_remove_filter [of xs "[]" dead h body] by simp

section \<open>PrecisionCutMode: the phases of update\<close>

lemma append_spark_fields [simp]:
  "time_limit (append_spark sp st) = time_limit st"
  "time_left (append_spark sp st) = time_left st"
  "combo (append_spark sp st) = combo st"
  "combo_timer (append_spark sp st) = combo_timer st"
  "perfect_text_timer (append_spark sp st) = perfect_text_timer st"
  "head_center (append_spark sp st) = head_center st"
  "fade_x (append_spark sp st) = fade_x st"
  "clip_y (append_spark sp st) = clip_y st"
  "perfection_window (append_spark sp st) = perfection_window st"
  "sparks (append_spark sp st) = sparks st @ [spark_next st]"
  "spark_next (append_spark sp st) = Suc (spark_next st)"
  "spark_objs (append_spark sp st) = (spark_objs st)(spark_next st := sp)"
  by (simp_all add: append_spark_def)

lemma spawn_sparks_fields [simp]:
  "time_limit (spawn_sparks n spd lf rnd k st) = time_limit st"
  "time_left (spawn_sparks n spd lf rnd k st) = time_left st"
  "combo (spawn_sparks n spd lf rnd k st) = combo st"
  "combo_timer (spawn_sparks n spd lf rnd k st) = combo_timer st"
  "perfect_text_timer (spawn_sparks n spd lf rnd k st) = perfect_text_timer st"
  "head_center (spawn_sparks n spd lf rnd k st) = head_center st"
  "fade_x (spawn_sparks n spd lf rnd k st) = fade_x st"
  "clip_y (spawn_sparks n spd lf rnd k st) = clip_y st"
  "perfection_window (spawn_sparks n spd lf rnd k st) = perfection_window st"
  by (induction n arbitrary: k st; simp add: Let_def)+

lemma spawn_sparks_next [simp]:
  "spark_next (spawn_sparks n spd lf rnd k st) = spark_next st + n"
  by (induction n arbitrary: k st) (simp_all add: Let_def)

lemma spawn_sparks_list:
  "sparks (spawn_sparks n spd lf rnd k st) = sparks st @ [spark_next st ..< spark_next st + n]"
  by (induction n arbitrary: k st) (simp_all add: Let_def upt_conv_Cons)

lemma spawn_sparks_old:
  "r < spark_next st \<Longrightarrow> spark_objs (spawn_sparks n spd lf rnd k st) r = spark_objs st r"
  by (induction n arbitrary: k st) (simp_all add: Let_def)

lemma spawn_sparks_life:
  "i < n \<Longrightarrow>
   life (spark_objs (spawn_sparks n spd lf rnd k st) (spark_next st + i)) =
     uniform (fst lf) (snd lf) (rnd (k + 3 * i + 2))"
proof (induction n arbitrary: k st i)
  case 0
  then show ?case by simp
next
  case (Suc n)
  show ?case
  proof (cases i)
    case 0
    then show ?thesis by (simp add: Let_def spawn_sparks_old)
  next
    case (Suc j)
    then have "j < n" using Suc.prems by simp
    obtain sp where step: "spawn_sparks (Suc n) spd lf rnd k st =
        spawn_sparks n spd lf rnd (k + 3) (append_spark sp st)"
      by (simp add: Let_def)
    have "life (spark_objs (spawn_sparks n spd lf rnd (k + 3) (append_spark sp st))
            (spark_next (append_spark sp st) + j)) =
            uniform (fst lf) (snd lf) (rnd (k + 3 + 3 * j + 2))"
      using Suc.IH [OF \<open>j < n\<close>] .
    moreover have "spark_next (append_spark sp st) + j = spark_next st + i"
      using Suc by simp
    moreover have "k + 3 + 3 * j + 2 = k + 3 * i + 2"
      using Suc by simp
    ultimately show ?thesis
      using step by metis
  qed
qed

lemma spawn_sparks_wf:
  "precision_wf st \<Longrightarrow> precision_wf (spawn_sparks n spd lf rnd k st)"
  by (auto simp: precision_wf_def spawn_sparks_list)

lemma update_clipper_fields [simp]:
  "time_limit (update_clipper dt mp st) = time_limit st"
  "time_left (update_clipper dt mp st) = max 0 (time_left st - dt)"
  "combo (update_clipper dt mp st) = combo st"
  "combo_timer (update_clipper dt mp st) = combo_timer st"
  "perfect_text_timer (update_clipper dt mp st) = perfect_text_timer st"
  "head_center (update_clipper dt mp st) = head_center st"
  "fade_x (update_clipper dt mp st) = fade_x st"
  "clip_y (update_clipper dt mp st) = max 100 (min (HEIGHT - 80) (real_of_int (snd mp)))"
  "perfection_window (update_clipper dt mp st) = perfection_window st"
  "sparks (update_clipper dt mp st) = sparks st"
  "spark_next (update_clipper dt mp st) = spark_next st"
  "spark_objs (update_clipper dt mp st) = spark_objs st"
  by (simp_all add: update_clipper_def Let_def)

lemma update_click_frame [simp]:
  "time_limit (update_click rnd mx md st) = time_limit st"
  "time_left (update_click rnd mx md st) = time_left st"
  "head_center (update_click rnd mx md st) = head_center st"
  "fade_x (update_click rnd mx md st) = fade_x st"
  "clip_y (update_click rnd mx md st) = clip_y st"
  "perfection_window (update_click rnd mx md st) = perfection_window st"
  by (simp_all add: update_click_def)

lemma update_click_wf: "precision_wf st \<Longrightarrow> precision_wf (update_click rnd mx md st)"
proof -
  assume wf: "precision_wf st"
  have a: "precision_wf (st\<lparr>combo := c, combo_timer := t, perfect_text_timer := p\<rparr>)" for c t p
    using wf by (simp add: precision_wf_def)
  have b: "precision_wf (st\<lparr>combo := c\<rparr>)" for c
    using wf by (simp add: precision_wf_def)
  show ?thesis
    using wf a b by (simp add: update_click_def spawn_sparks_wf)
qed

lemma update_clipper_wf: "precision_wf st \<Longrightarrow> precision_wf (update_clipper dt mp st)"
  by (simp add: precision_wf_def)

lemma update_press_wf: "precision_wf st \<Longrightarrow> precision_wf (update_press rnd dt mp md st)"
  by (simp add: update_press_def update_click_wf update_clipper_wf)

lemma life_spark_body [simp]: "life (spark_body dt sp) = life sp - dt"
  by (simp add: spark_body_def Spark_update_def Let_def)

lemma update_sparks_wf:
  "precision_wf st \<Longrightarrow> update_sparks dt st = Inr (prune_sparks dt st)"
proof -
  assume "precision_wf st"
  then have d: "distinct (sparks st)" by (simp add: precision_wf_def)
  have "(\<lambda>r. \<not> life (spark_body dt (spark_objs st r)) \<le> 0) =
        (\<lambda>r. 0 < life (spark_objs st r) - dt)"
    by (auto simp: fun_eq_iff)
  then show ?thesis
    unfolding update_sparks_def prune_sparks_def
    using for_remove_distinct [OF d, of "spark_body dt" "\<lambda>sp. life sp \<le> 0" "spark_objs st"]
    by simp
qed

lemma prune_sparks_fields [simp]:
  "time_limit (prune_sparks dt st) = time_limit st"
  "time_left (prune_sparks dt st) = time_left st"
  "combo (prune_sparks dt st) = combo st"
  "combo_timer (prune_sparks dt st) = combo_timer st"
  "perfect_text_timer (prune_sparks dt st) = perfect_text_timer st"
  "head_center (prune_sparks dt st) = head_center st"
  "fade_x (prune_sparks dt st) = fade_x st"
  "clip_y (prune_sparks dt st) = clip_y st"
  "perfection_window (prune_sparks dt st) = perfection_window st"
  "spark_next (prune_sparks dt st) = spark_next st"
  "sparks (prune_sparks dt st) = filter (\<lambda>r. 0 < life (spark_objs st r) - dt) (sparks st)"
  by (simp_all add: prune_sparks_def)

lemma prune_sparks_life:
  "r \<in> set (sparks st) \<Longrightarrow> life (spark_objs (prune_sparks dt st) r) = life (spark_objs st r) - dt"
  by (simp add: prune_sparks_def)

lemma prune_sparks_wf: "precision_wf st \<Longrightarrow> precision_wf (prune_sparks dt st)"
  by (simp add: precision_wf_def)

lemma update_timers_fields [simp]:
  "time_limit (update_timers dt st) = time_limit st"
  "time_left (update_timers dt st) = time_left st"
  "sparks (update_timers dt st) = sparks st"
  "spark_objs (update_timers dt st) = spark_objs st"
  "spark_next (update_timers dt st) = spark_next st"
  "head_center (update_timers dt st) = head_center st"
  "fade_x (update_timers dt st) = fade_x st"
  "clip_y (update_timers dt st) = clip_y st"
  "perfection_window (update_timers dt st) = perfection_window st"
  "combo (update_timers dt st) = (if 0 < combo_timer st then combo st else 0)"
  "combo_timer (update_timers dt st) = (if 0 < combo_timer st then combo_timer st - dt else combo_timer st)"
  by (simp_all add: update_timers_def Let_def)

lemma update_timers_wf: "precision_wf st \<Longrightarrow> precision_wf (update_timers dt st)"
  by (simp add: precision_wf_def)

lemma precision_update_wf:
  assumes "precision_wf st"
  shows "PrecisionCutMode_update rnd dt mp md st =
     Inr (update_timers dt (prune_sparks dt (update_press rnd dt mp md st)))"
  unfolding PrecisionCutMode_update_def
  using update_sparks_wf [OF update_press_wf [OF assms]] by simp

lemma precision_update_preserves_wf:
  assumes "precision_wf st" "PrecisionCutMode_update rnd dt mp md st = Inr st'"
  shows "precision_wf st'"
proof -
  have "precision_wf (update_timers dt (prune_sparks dt (update_press rnd dt mp md st)))"
    using assms(1) by (intro update_timers_wf prune_sparks_wf update_press_wf)
  then show ?thesis
    using assms(2) unfolding precision_update_wf [OF assms(1)] by simp
qed

lemma precision_init_wf: "precision_wf PrecisionCutMode_init"
  by (simp add: precision_wf_def PrecisionCutMode_init_def)

lemma precision_reset_wf: "precision_wf (PrecisionCutMode_reset st)"
  by (simp add: precision_wf_def PrecisionCutMode_reset_def)

lemma precision_reachable_wf: "precision_reachable st \<Longrightarrow> precision_wf st"
  by (induction rule: precision_reachable.induct)
     (simp_all add: precision_init_wf precision_reset_wf precision_update_preserves_wf)

section \<open>BrawlMode: the phases of update\<close>

lemma append_particle_fields [simp]:
  "timer (append_particle p st) = timer st"
  "left_hp (append_particle p st) = left_hp st"
  "right_hp (append_particle p st) = right_hp st"
  "super_full (append_particle p st) = super_full st"
  "super_active (append_particle p st) = super_active st"
  "super_timer (append_particle p st) = super_timer st"
  "left_pos (append_particle p st) = left_pos st"
  "right_pos (append_particle p st) = right_pos st"
  "particles (append_particle p st) = particles st @ [particle_next st]"
  "particle_next (append_particle p st) = Suc (particle_next st)"
  "particle_objs (append_particle p st) = (particle_objs st)(particle_next st := p)"
  by (simp_all add: append_particle_def)

lemma spawn_particles_fields [simp]:
  "timer (spawn_particles n pos a spd lf rnd k st) = timer st"
  "left_hp (spawn_particles n pos a spd lf rnd k st) = left_hp st"
  "right_hp (spawn_particles n pos a spd lf rnd k st) = right_hp st"
  "super_full (spawn_particles n pos a spd lf rnd k st) = super_full st"
  "super_active (spawn_particles n pos a spd lf rnd k st) = super_active st"
  "super_timer (spawn_particles n pos a spd lf rnd k st) = super_timer st"
  "left_pos (spawn_particles n pos a spd lf rnd k st) = left_pos st"
  "right_pos (spawn_particles n pos a spd lf rnd k st) = right_pos st"
  by (induction n arbitrary: k st; simp add: Let_def)+

lemma spawn_particles_next [simp]:
  "particle_next (spawn_particles n pos a spd lf rnd k st) = particle_next st + n"
  by (induction n arbitrary: k st) (simp_all add: Let_def)

lemma spawn_particles_list:
  "particles (spawn_particles n pos a spd lf rnd k st) =
     particles st @ [particle_next st ..< particle_next st + n]"
  by (induction n arbitrary: k st) (simp_all add: Let_def upt_conv_Cons)

lemma spawn_particles_old:
  "r < particle_next st \<Longrightarrow>
   particle_objs (spawn_particles n pos a spd lf rnd k st) r = particle_objs st r"
  by (induction n arbitrary: k st) (simp_all add: Let_def)

lemma spawn_particles_new:
  "i < n \<Longrightarrow>
   \<exists>vx vy. particle_objs (spawn_particles n pos a spd lf rnd k st) (particle_next st + i) =
     (fst pos, snd pos, vx, vy, uniform (fst lf) (snd lf) (rnd (k + 3 * i + 2)))"
proof (induction n arbitrary: k st i)
  case 0
  then show ?case by simp
next
  case (Suc n)
  show ?case
  proof (cases i)
    case 0
    then show ?thesis by (simp add: Let_def spawn_particles_old)
  next
    case (Suc j)
    then have "j < n" using Suc.prems by simp
    obtain p where step: "spawn_particles (Suc n) pos a spd lf rnd k st =
        spawn_particles n pos a spd lf rnd (k + 3) (append_particle p st)"
      by (simp add: Let_def)
    have "\<exists>vx vy. particle_objs (spawn_particles n pos a spd lf rnd (k + 3) (append_particle p st))
            (particle_next (append_particle p st) + j) =
            (fst pos, snd pos, vx, vy, uniform (fst lf) (snd lf) (rnd (k + 3 + 3 * j + 2)))"
      using Suc.IH [OF \<open>j < n\<close>] .
    moreover have "particle_next (append_particle p st) + j = particle_next st + i"
      using Suc by simp
    moreover have "k + 3 + 3 * j + 2 = k + 3 * i + 2"
      using Suc by simp
    ultimately show ?thesis
      using step by metis
  qed
qed

lemma spawn_particles_wf:
  "brawl_wf st \<Longrightarrow> brawl_wf (spawn_particles n pos a spd lf rnd k st)"
  by (auto simp: brawl_wf_def spawn_particles_list)

lemma brawl_move_fields [simp]:
  "timer (brawl_move dt inputs st) = max 0 (timer st - dt)"
  "left_hp (brawl_move dt inputs st) = left_hp st"
  "right_hp (brawl_move dt inputs st) = right_hp st"
  "super_full (brawl_move dt inputs st) = super_full st"
  "super_active (brawl_move dt inputs st) = super_active st"
  "super_timer (brawl_move dt inputs st) = super_timer st"
  "particles (brawl_move dt inputs st) = particles st"
  "particle_next (brawl_move dt inputs st) = particle_next st"
  "particle_objs (brawl_move dt inputs st) = particle_objs st"
  "right_pos (brawl_move dt inputs st) =
     (max (WIDTH / 2 + 60) (min (WIDTH - 120) (fst (right_pos st))), snd (right_pos st))"
  by (simp_all add: brawl_move_def Let_def)

lemma brawl_move_left:
  "120 \<le> fst (left_pos (brawl_move dt inputs st)) \<and>
   fst (left_pos (brawl_move dt inputs st)) \<le> WIDTH / 2 - 60"
  by (simp add: brawl_move_def Let_def WIDTH_def)

lemma brawl_move_wf: "brawl_wf st \<Longrightarrow> brawl_wf (brawl_move dt inputs st)"
  by (simp add: brawl_wf_def)

lemma brawl_trigger_wf: "brawl_wf st \<Longrightarrow> brawl_wf (snd (brawl_trigger rnd inputs st))"
proof -
  assume wf: "brawl_wf st"
  have "brawl_wf (st\<lparr>super_active := a, super_timer := t, super_full := f\<rparr>)" for a t f
    using wf by (simp add: brawl_wf_def)
  then show ?thesis
    using wf by (simp add: brawl_trigger_def spawn_particles_wf)
qed

lemma brawl_super_wf: "brawl_wf (snd kst) \<Longrightarrow> brawl_wf (snd (brawl_super rnd dt kst))"
proof -
  assume wf: "brawl_wf (snd kst)"
  have a: "brawl_wf ((snd kst)\<lparr>super_timer := t\<rparr>)" for t
    using wf by (simp add: brawl_wf_def)
  have "brawl_wf ((snd kst)\<lparr>super_timer := t, super_active := a, right_hp := h\<rparr>)" for a t h
    using wf by (simp add: brawl_wf_def)
  then show ?thesis
    using wf a by (simp add: brawl_super_def Let_def spawn_particles_wf)
qed

lemma particle_life_body [simp]: "particle_life (particle_body dt p) = particle_life p - dt"
  by (cases p) simp

lemma brawl_particles_wf:
  "brawl_wf st \<Longrightarrow> brawl_particles dt st = Inr (prune_particles dt st)"
proof -
  assume "brawl_wf st"
  then have d: "distinct (particles st)" by (simp add: brawl_wf_def)
  have "(\<lambda>r. \<not> particle_life (particle_body dt (particle_objs st r)) \<le> 0) =
        (\<lambda>r. 0 < particle_life (particle_objs st r) - dt)"
    by (auto simp: fun_eq_iff)
  then show ?thesis
    unfolding brawl_particles_def prune_particles_def
    using for_remove_distinct [OF d, of "particle_body dt" "\<lambda>p. particle_life p \<le> 0" "particle_objs st"]
    by simp
qed

lemma prune_particles_fields [simp]:
  "timer (prune_particles dt st) = timer st"
  "left_hp (prune_particles dt st) = left_hp st"
  "right_hp (prune_particles dt st) = right_hp st"
  "super_full (prune_particles dt st) = super_full st"
  "super_active (prune_particles dt st) = super_active st"
  "super_timer (prune_particles dt st) = super_timer st"
  "left_pos (prune_particles dt st) = left_pos st"
  "right_pos (prune_particles dt st) = right_pos st"
  "particle_next (prune_particles dt st) = particle_next st"
  "particles (prune_particles dt st) =
     filter (\<lambda>r. 0 < particle_life (particle_objs st r) - dt) (particles st)"
  by (simp_all add: prune_particles_def)

lemma prune_particles_life:
  "r \<in> set (particles st) \<Longrightarrow>
   particle_life (particle_objs (prune_particles dt st) r) = particle_life (particle_objs st r) - dt"
  by (simp add: prune_particles_def)

lemma prune_particles_wf: "brawl_wf st \<Longrightarrow> brawl_wf (prune_particles dt st)"
  by (simp add: brawl_wf_def)

lemma brawl_ai_fields [simp]:
  "timer (brawl_ai rnd k dt st) = timer st"
  "left_hp (brawl_ai rnd k dt st) = left_hp st"
  "right_hp (brawl_ai rnd k dt st) = right_hp st"
  "super_full (brawl_ai rnd k dt st) = super_full st"
  "super_active (brawl_ai rnd k dt st) = super_active st"
  "super_timer (brawl_ai rnd k dt st) = super_timer st"
  "left_pos (brawl_ai rnd k dt st) = left_pos st"
  "particles (brawl_ai rnd k dt st) = particles st"
  "particle_next (brawl_ai rnd k dt st) = particle_next st"
  "particle_objs (brawl_ai rnd k dt st) = particle_objs st"
  by (simp_all add: brawl_ai_def)

lemma brawl_ai_wf: "brawl_wf st \<Longrightarrow> brawl_wf (brawl_ai rnd k dt st)"
  by (simp add: brawl_wf_def)

lemma brawl_pre_wf: "brawl_wf st \<Longrightarrow> brawl_wf (snd (brawl_pre rnd dt inputs st))"
  unfolding brawl_pre_def by (intro brawl_super_wf brawl_trigger_wf brawl_move_wf)

lemma brawl_update_wf:
  assumes "brawl_wf st"
  shows "BrawlMode_update rnd dt inputs st =
     Inr (brawl_ai rnd (fst (brawl_pre rnd dt inputs st)) dt
            (prune_particles dt (snd (brawl_pre rnd dt inputs st))))"
  unfolding BrawlMode_update_def Let_def
  using brawl_particles_wf [OF brawl_pre_wf [OF assms, of rnd dt inputs], of dt]
  by (simp add: brawl_pre_def)

lemma brawl_update_preserves_wf:
  assumes "brawl_wf st" "BrawlMode_update rnd dt inputs st = Inr st'"
  shows "brawl_wf st'"
proof -
  have "brawl_wf (brawl_ai rnd (fst (brawl_pre rnd dt inputs st)) dt
            (prune_particles dt (snd (brawl_pre rnd dt inputs st))))"
    using assms(1) by (intro brawl_ai_wf prune_particles_wf brawl_pre_wf)
  then show ?thesis
    using assms(2) unfolding brawl_update_wf [OF assms(1)] by simp
qed

lemma brawl_init_wf: "brawl_wf BrawlMode_init"
  by (simp add: brawl_wf_def BrawlMode_init_def)

lemma brawl_reset_wf: "brawl_wf (BrawlMode_reset st)"
  by (simp add: brawl_wf_def BrawlMode_reset_def)

lemma brawl_reachable_wf: "brawl_reachable st \<Longrightarrow> brawl_wf st"
  by (induction rule: brawl_reachable.induct)
     (simp_all add: brawl_init_wf brawl_reset_wf brawl_update_preserves_wf)

section \<open>Frame lemmas of the phases\<close>

lemma update_click_list:
  "\<exists>n. sparks (update_click rnd mx md st) = sparks st @ [spark_next st ..< spark_next st + n]"
proof (cases "md \<and> press_dist mx st < 80")
  case False
  then have "update_click rnd mx md st = st" by (auto simp: update_click_def)
  then have "sparks (update_click rnd mx md st) = sparks st @ [spark_next st ..< spark_next st + 0]"
    by simp
  then show ?thesis by (rule exI)
next
  case True
  show ?thesis
  proof (cases "press_vert_err st \<le> perfection_window st")
    case True
    with \<open>md \<and> press_dist mx st < 80\<close>
    have "sparks (update_click rnd mx md st) = sparks st @ [spark_next st ..< spark_next st + 12]"
      by (simp add: update_click_def spawn_sparks_list)
    then show ?thesis by (rule exI)
  next
    case False
    with \<open>md \<and> press_dist mx st < 80\<close>
    have "sparks (update_click rnd mx md st) = sparks st @ [spark_next st ..< spark_next st + 4]"
      by (simp add: update_click_def spawn_sparks_list)
    then show ?thesis by (rule exI)
  qed
qed

lemma update_press_list:
  "\<exists>n. sparks (update_press rnd dt mp md st) = sparks st @ [spark_next st ..< spark_next st + n]"
  using update_click_list [of rnd "real_of_int (fst mp)" md "update_clipper dt mp st"]
  by (simp add: update_press_def)

lemma update_press_old:
  "r < spark_next st \<Longrightarrow> spark_objs (update_press rnd dt mp md st) r = spark_objs st r"
  by (simp add: update_press_def update_click_def spawn_sparks_old)

lemma update_press_time [simp]:
  "time_left (update_press rnd dt mp md st) = max 0 (time_left st - dt)"
  "time_limit (update_press rnd dt mp md st) = time_limit st"
  by (simp_all add: update_press_def)

lemma brawl_trigger_fields [simp]:
  "timer (snd (brawl_trigger rnd inputs st)) = timer st"
  "left_hp (snd (brawl_trigger rnd inputs st)) = left_hp st"
  "right_hp (snd (brawl_trigger rnd inputs st)) = right_hp st"
  "left_pos (snd (brawl_trigger rnd inputs st)) = left_pos st"
  "right_pos (snd (brawl_trigger rnd inputs st)) = right_pos st"
  by (simp_all add: brawl_trigger_def)

lemma brawl_super_fields [simp]:
  "timer (snd (brawl_super rnd dt kst)) = timer (snd kst)"
  "left_hp (snd (brawl_super rnd dt kst)) = left_hp (snd kst)"
  "super_full (snd (brawl_super rnd dt kst)) = super_full (snd kst)"
  "left_pos (snd (brawl_super rnd dt kst)) = left_pos (snd kst)"
  "right_pos (snd (brawl_super rnd dt kst)) = right_pos (snd kst)"
  by (simp_all add: brawl_super_def Let_def)

lemma brawl_pre_fields [simp]:
  "timer (snd (brawl_pre rnd dt inputs st)) = max 0 (timer st - dt)"
  "left_hp (snd (brawl_pre rnd dt inputs st)) = left_hp st"
  "left_pos (snd (brawl_pre rnd dt inputs st)) = left_pos (brawl_move dt inputs st)"
  "right_pos (snd (brawl_pre rnd dt inputs st)) =
     (max (WIDTH / 2 + 60) (min (WIDTH - 120) (fst (right_pos st))), snd (right_pos st))"
  by (simp_all add: brawl_pre_def)

lemma brawl_trigger_list:
  "\<exists>n. particles (snd (brawl_trigger rnd inputs st)) =
         particles st @ [particle_next st ..< particle_next st + n] \<and>
       particle_next (snd (brawl_trigger rnd inputs st)) = particle_next st + n"
proof (cases "inputs_get inputs ''super'' \<and> super_full st \<and> \<not> super_active st")
  case True
  then have "particles (snd (brawl_trigger rnd inputs st)) =
         particles st @ [particle_next st ..< particle_next st + 30] \<and>
       particle_next (snd (brawl_trigger rnd inputs st)) = particle_next st + 30"
    by (simp add: brawl_trigger_def spawn_particles_list)
  then show ?thesis by (rule exI)
next
  case False
  then have "brawl_trigger rnd inputs st = (0, st)" by (auto simp: brawl_trigger_def)
  then have "particles (snd (brawl_trigger rnd inputs st)) =
         particles st @ [particle_next st ..< particle_next st + 0] \<and>
       particle_next (snd (brawl_trigger rnd inputs st)) = particle_next st + 0"
    by simp
  then show ?thesis by (rule exI)
qed

lemma brawl_trigger_old:
  "r < particle_next st \<Longrightarrow> particle_objs (snd (brawl_trigger rnd inputs st)) r = particle_objs st r"
  by (simp add: brawl_trigger_def spawn_particles_old)

lemma brawl_super_list:
  "\<exists>n. particles (snd (brawl_super rnd dt kst)) =
         particles (snd kst) @ [particle_next (snd kst) ..< particle_next (snd kst) + n]"
proof (cases "super_active (snd kst) \<and> super_timer (snd kst) - dt \<le> 0")
  case True
  then have "particles (snd (brawl_super rnd dt kst)) =
         particles (snd kst) @ [particle_next (snd kst) ..< particle_next (snd kst) + 40]"
    by (simp add: brawl_super_def Let_def spawn_particles_list)
  then show ?thesis by (rule exI)
next
  case False
  then have "particles (snd (brawl_super rnd dt kst)) =
      particles (snd kst) @ [particle_next (snd kst) ..< particle_next (snd kst) + 0]"
    by (auto simp: brawl_super_def Let_def)
  then show ?thesis by (rule exI)
qed

lemma brawl_super_old:
  "r < particle_next (snd kst) \<Longrightarrow>
   particle_objs (snd (brawl_super rnd dt kst)) r = particle_objs (snd kst) r"
  by (simp add: brawl_super_def Let_def spawn_particles_old)

lemma brawl_pre_list:
  "\<exists>n. particles (snd (brawl_pre rnd dt inputs st)) =
         particles st @ [particle_next st ..< particle_next st + n]"
proof -
  let ?m = "brawl_move dt inputs st"
  obtain n1 where n1: "particles (snd (brawl_trigger rnd inputs ?m)) =
      particles st @ [particle_next st ..< particle_next st + n1]"
    "particle_next (snd (brawl_trigger rnd inputs ?m)) = particle_next st + n1"
    using brawl_trigger_list [of rnd inputs ?m] by (elim exE conjE) simp
  obtain n2 where "particles (snd (brawl_super rnd dt (brawl_trigger rnd inputs ?m))) =
      particles (snd (brawl_trigger rnd inputs ?m)) @
        [particle_next (snd (brawl_trigger rnd inputs ?m)) ..<
         particle_next (snd (brawl_trigger rnd inputs ?m)) + n2]"
    using brawl_super_list [of rnd dt "brawl_trigger rnd inputs ?m"] by (elim exE)
  then have "particles (snd (brawl_pre rnd dt inputs st)) =
      particles st @ [particle_next st ..< particle_next st + (n1 + n2)]"
    using n1 upt_add_eq_append [of "particle_next st" "particle_next st + n1" n2]
    by (simp add: brawl_pre_def add.assoc)
  then show ?thesis by (rule exI)
qed

lemma brawl_pre_old:
  assumes "r < particle_next st"
  shows "particle_objs (snd (brawl_pre rnd dt inputs st)) r = particle_objs st r"
proof -
  let ?m = "brawl_move dt inputs st"
  obtain n1 where "particle_next (snd (brawl_trigger rnd inputs ?m)) = particle_next st + n1"
    using brawl_trigger_list [of rnd inputs ?m] by (elim exE conjE) simp
  then have "r < particle_next (snd (brawl_trigger rnd inputs ?m))" using assms by simp
  then show ?thesis
    using assms by (simp add: brawl_pre_def brawl_super_old brawl_trigger_old)
qed

section \<open>The mode timers\<close>

text \<open>
  Claim C6. For every \<open>dt\<close> (in particular every \<open>dt \<ge> 0\<close>) and any other inputs, the
  mode timer after \<open>update\<close> is \<open>max 0 (timer_before - dt)\<close> and is not negative: \<open>time_left\<close>
  in PrecisionCutMode and \<open>timer\<close> in BrawlMode. The update returns (it raises nothing) on
  every state whose list holds distinct objects.
\<close>

theorem timer_counts_down_floored:
  "(precision_wf st \<longrightarrow>
      (\<exists>st'. PrecisionCutMode_update rnd dt mouse_pos pressed st = Inr st' \<and>
             time_left st' = max 0 (time_left st - dt) \<and> 0 \<le> time_left st')) \<and>
   (brawl_wf b \<longrightarrow>
      (\<exists>b'. BrawlMode_update rnd' dt' inputs b = Inr b' \<and>
            timer b' = max 0 (timer b - dt') \<and> 0 \<le> timer b'))"
proof (intro conjI impI)
  assume wf: "precision_wf st"
  show "\<exists>st'. PrecisionCutMode_update rnd dt mouse_pos pressed st = Inr st' \<and>
             time_left st' = max 0 (time_left st - dt) \<and> 0 \<le> time_left st'"
    unfolding precision_update_wf [OF wf] by simp
next
  assume wf: "brawl_wf b"
  show "\<exists>b'. BrawlMode_update rnd' dt' inputs b = Inr b' \<and>
            timer b' = max 0 (timer b - dt') \<and> 0 \<le> timer b'"
    unfolding brawl_update_wf [OF wf] by simp
qed

theorem timer_counts_down_floored_witness:
  "precision_wf PrecisionCutMode_init \<and>
   (\<exists>st'. PrecisionCutMode_update (\<lambda>_. 0) (1 / 10) (698, 334) False PrecisionCutMode_init = Inr st' \<and>
          time_left st' = 119 / 10 \<and> 0 \<le> time_left st') \<and>
   brawl_wf BrawlMode_init \<and>
   (\<exists>b'. BrawlMode_update (\<lambda>_. 0) 100 Map.empty BrawlMode_init = Inr b' \<and>
         timer b' = 0 \<and> 0 \<le> timer b')"
proof -
  have p: "time_left PrecisionCutMode_init = 12"
    by (simp add: PrecisionCutMode_init_def)
  have b: "timer BrawlMode_init = 99"
    by (simp add: BrawlMode_init_def)
  show ?thesis
    using timer_counts_down_floored [of PrecisionCutMode_init "\<lambda>_. 0" "1 / 10" "(698, 334)" False
        BrawlMode_init "\<lambda>_. 0" 100 Map.empty]
      precision_init_wf brawl_init_wf
    by (simp add: p b)
qed

end
